theory Spec2Isabelle
  imports Complex_Main "HOL-Library.List_Lexorder" "HOL-Library.Product_Lexorder"
    "HOL-Library.Multiset"
begin

section \<open>Text\<close>

text \<open>
  A Python \<open>str\<close> is a sequence of Unicode code points, so text is a list of natural
  numbers. \<open>cp\<close> turns an ASCII literal into such a text.
\<close>

type_synonym ustr = "nat list"

definition cp :: "string \<Rightarrow> ustr" where
  "cp s = map of_char s"

text \<open>\<open>str.replace(old, new)\<close> for a non-empty \<open>old\<close>: leftmost, non-overlapping.\<close>

fun replace_all :: "ustr \<Rightarrow> ustr \<Rightarrow> ustr \<Rightarrow> ustr" where
  "replace_all old new [] = []"
| "replace_all old new (c # cs) =
     (if old \<noteq> [] \<and> take (length old) (c # cs) = old
      then new @ replace_all old new (drop (length old) (c # cs))
      else c # replace_all old new cs)"

definition is_digit :: "nat \<Rightarrow> bool" where
  "is_digit c = (48 \<le> c \<and> c \<le> 57)"

section \<open>Floating-point values\<close>

text \<open>
  A Python float is a finite number, an infinity or NaN; NaN is also pandas' missing
  value. Finite floats are read as the real numbers they denote (rounding is not part
  of the model).
\<close>

datatype fval = Fin real | PInf | NInf | NaN

fun fneg :: "fval \<Rightarrow> fval" where
  "fneg (Fin x) = Fin (- x)"
| "fneg PInf = NInf"
| "fneg NInf = PInf"
| "fneg NaN = NaN"

fun fadd :: "fval \<Rightarrow> fval \<Rightarrow> fval" where
  "fadd (Fin x) (Fin y) = Fin (x + y)"
| "fadd NaN _ = NaN"
| "fadd _ NaN = NaN"
| "fadd PInf NInf = NaN"
| "fadd NInf PInf = NaN"
| "fadd PInf _ = PInf"
| "fadd _ PInf = PInf"
| "fadd NInf _ = NInf"
| "fadd _ NInf = NInf"

section \<open>Tables\<close>

text \<open>
  A pandas DataFrame is an ordered list of labelled columns (labels may repeat) over a
  common number of rows. A cell is a string or a float; the float NaN is the missing value.
\<close>

datatype cell = S ustr | F fval

record 'c frame =
  columns :: "(ustr \<times> 'c list) list"
  nrows :: nat

datatype error = ParserError | ValueError | KeyError | TypeError | AttributeError

definition labels :: "'c frame \<Rightarrow> ustr list" where
  "labels df = map fst (columns df)"

text \<open>\<open>df.empty\<close>: some axis has length zero.\<close>

definition empty_frame :: "'c frame \<Rightarrow> bool" where
  "empty_frame df = (columns df = [] \<or> nrows df = 0)"

text \<open>\<open>df[label]\<close> finds every column carrying the label.\<close>

definition getcols :: "'c frame \<Rightarrow> ustr \<Rightarrow> 'c list list" where
  "getcols df l = map snd (filter (\<lambda>p. fst p = l) (columns df))"

text \<open>\<open>df[label] = series\<close>: overwrites every column with that label, or appends one.\<close>

definition setcol :: "'c frame \<Rightarrow> ustr \<Rightarrow> 'c list \<Rightarrow> 'c frame" where
  "setcol df l v =
     (if l \<in> set (labels df)
      then df\<lparr>columns := map (\<lambda>p. if fst p = l then (l, v) else p) (columns df)\<rparr>
      else df\<lparr>columns := columns df @ [(l, v)]\<rparr>)"

text \<open>\<open>df[[l1, ..., lk]]\<close>: for each requested label, every column carrying it.\<close>

definition project :: "'c frame \<Rightarrow> ustr list \<Rightarrow> 'c frame" where
  "project df ls =
     df\<lparr>columns := concat (map (\<lambda>l. filter (\<lambda>p. fst p = l) (columns df)) ls)\<rparr>"

definition rename_columns :: "(ustr \<Rightarrow> ustr) \<Rightarrow> 'c frame \<Rightarrow> 'c frame" where
  "rename_columns f df = df\<lparr>columns := map (\<lambda>p. (f (fst p), snd p)) (columns df)\<rparr>"

section \<open>Library functions\<close>

text \<open>
  What the program takes from chardet, the codecs, unicodedata, \<open>str.lower\<close>,
  \<open>float.__str__\<close> and \<open>pd.read_csv\<close> is a parameter of the model.
\<close>

record lib =
  lib_chardet :: "nat list \<Rightarrow> ustr option"
  lib_decode :: "ustr \<Rightarrow> nat list \<Rightarrow> ustr"
  lib_lower :: "ustr \<Rightarrow> ustr"
  lib_nfkd :: "ustr \<Rightarrow> ustr"
  lib_combining :: "nat \<Rightarrow> bool"
  lib_float_str :: "fval \<Rightarrow> ustr"
  lib_read_csv :: "ustr \<Rightarrow> error + ustr frame"

text \<open>\<open>str(x)\<close> of a cell, as \<open>astype(str)\<close> and \<open>normalize_text\<close> apply it.\<close>

definition cell_str :: "lib \<Rightarrow> cell \<Rightarrow> ustr" where
  "cell_str L c = (case c of S s \<Rightarrow> s | F v \<Rightarrow> lib_float_str L v)"

section \<open>Numeric parser\<close>

text \<open>
  \<open>pd.to_numeric(s, errors="coerce")\<close> on one string: surrounding blanks are ignored, then
  an optional sign, then a decimal numeral with an optional fraction and an optional
  exponent, or one of the words for infinity; anything else is the missing value.
\<close>

definition digits_val :: "ustr \<Rightarrow> nat" where
  "digits_val ds = foldl (\<lambda>a d. 10 * a + (d - 48)) 0 ds"

definition is_blank :: "nat \<Rightarrow> bool" where
  "is_blank c = (c = 32 \<or> (9 \<le> c \<and> c \<le> 13))"

definition strip_blanks :: "ustr \<Rightarrow> ustr" where
  "strip_blanks s = rev (dropWhile is_blank (rev (dropWhile is_blank s)))"

definition ascii_lower :: "nat \<Rightarrow> nat" where
  "ascii_lower c = (if 65 \<le> c \<and> c \<le> 90 then c + 32 else c)"

text \<open>The mantissa: digits, optionally a point and more digits, at least one digit.\<close>

definition parse_mantissa :: "ustr \<Rightarrow> real option" where
  "parse_mantissa s =
     (let ip = takeWhile is_digit s; r = dropWhile is_digit s in
      case r of
        [] \<Rightarrow> (if ip = [] then None else Some (real (digits_val ip)))
      | c # fp \<Rightarrow>
          (if c = 46 \<and> list_all is_digit fp \<and> (ip \<noteq> [] \<or> fp \<noteq> [])
           then Some (real (digits_val ip) + real (digits_val fp) / 10 ^ length fp)
           else None))"

definition parse_exponent :: "ustr \<Rightarrow> int option" where
  "parse_exponent s =
     (case s of
        [] \<Rightarrow> None
      | c # r \<Rightarrow>
          (if c = 45 then (if r \<noteq> [] \<and> list_all is_digit r then Some (- int (digits_val r)) else None)
           else if c = 43 then (if r \<noteq> [] \<and> list_all is_digit r then Some (int (digits_val r)) else None)
           else if list_all is_digit (c # r) then Some (int (digits_val (c # r)))
           else None))"

definition parse_unsigned :: "ustr \<Rightarrow> fval" where
  "parse_unsigned s =
     (let l = map ascii_lower s in
      if l = cp ''inf'' \<or> l = cp ''infinity'' then PInf
      else
        (let m = takeWhile (\<lambda>c. c \<noteq> 101) l; r = dropWhile (\<lambda>c. c \<noteq> 101) l in
         case parse_mantissa m of
           None \<Rightarrow> NaN
         | Some x \<Rightarrow>
             (case r of
                [] \<Rightarrow> Fin x
              | _ # e \<Rightarrow>
                  (case parse_exponent e of
                     None \<Rightarrow> NaN
                   | Some k \<Rightarrow> Fin (if 0 \<le> k then x * 10 ^ nat k else x / 10 ^ nat (- k))))))"

definition to_numeric :: "ustr \<Rightarrow> fval" where
  "to_numeric s0 =
     (let s = strip_blanks s0 in
      case s of
        [] \<Rightarrow> NaN
      | c # r \<Rightarrow>
          (if c = 45 then fneg (parse_unsigned r)
           else if c = 43 then parse_unsigned r
           else parse_unsigned s))"

text \<open>
  The regular expression \<open>^([0-9\.,]+)-$\<close> of \<open>clean_val\<close>, replaced by \<open>-\1\<close>: a
  non-empty run of digits, points and commas, then one hyphen, at the end of the string
  (Python's \<open>$\<close> also matches before one final newline, which the replacement keeps).
\<close>

definition in_num_class :: "nat \<Rightarrow> bool" where
  "in_num_class c = (is_digit c \<or> c = 46 \<or> c = 44)"

definition trailing_minus :: "ustr \<Rightarrow> ustr" where
  "trailing_minus s =
     (let b = takeWhile in_num_class s; r = dropWhile in_num_class s in
      if b \<noteq> [] \<and> r = [45] then 45 # b
      else if b \<noteq> [] \<and> r = [45, 10] then 45 # b @ [10]
      else s)"

text \<open>The steps of \<open>clean_val\<close> on one element, after \<open>astype(str)\<close>.\<close>

definition clean_val1 :: "ustr \<Rightarrow> fval" where
  "clean_val1 s0 =
     (let s1 = replace_all [160] [] s0;
          s2 = replace_all (cp ''R$'') [] s1;
          s3 = replace_all [32] [] s2;
          s4 = replace_all [8722] [45] s3;
          s5 = trailing_minus s4;
          s6 = replace_all [46] [] s5;
          s7 = replace_all [44] [46] s6
      in to_numeric s7)"

definition clean_val :: "lib \<Rightarrow> cell list \<Rightarrow> fval list" where
  "clean_val L series = map (\<lambda>c. clean_val1 (cell_str L c)) series"

section \<open>Encoding detector and text normalizer\<close>

definition detect_encoding :: "lib \<Rightarrow> nat list \<Rightarrow> ustr" where
  "detect_encoding L b =
     (if take 3 b = [239, 187, 191] then cp ''utf-8-sig''
      else
        (let enc = lib_lower L (case lib_chardet L b of None \<Rightarrow> cp ''utf-8'' | Some g \<Rightarrow> if g = [] then cp ''utf-8'' else g) in
         if enc \<in> set [cp ''iso-8859-1'', cp ''latin-1'', cp ''latin1''] then cp ''latin1''
         else enc))"

text \<open>The characters \<open>str.strip()\<close> removes.\<close>

definition is_space :: "nat \<Rightarrow> bool" where
  "is_space c = ((9 \<le> c \<and> c \<le> 13) \<or> (28 \<le> c \<and> c \<le> 32) \<or> c = 133 \<or> c = 160
     \<or> c = 5760 \<or> (8192 \<le> c \<and> c \<le> 8202) \<or> c = 8232 \<or> c = 8233 \<or> c = 8239
     \<or> c = 8287 \<or> c = 12288)"

definition py_strip :: "ustr \<Rightarrow> ustr" where
  "py_strip s = rev (dropWhile is_space (rev (dropWhile is_space s)))"

definition startswith :: "ustr \<Rightarrow> ustr \<Rightarrow> bool" where
  "startswith s p = (take (length p) s = p)"

text \<open>\<open>p in s\<close> on strings: \<open>p\<close> occurs in \<open>s\<close> as a contiguous run.\<close>

fun contains :: "ustr \<Rightarrow> ustr \<Rightarrow> bool" where
  "contains [] p = (p = [])"
| "contains (c # cs) p = (take (length p) (c # cs) = p \<or> contains cs p)"

text \<open>
  \<open>normalize_text\<close> on one cell. The tables of the program hold strings and floats, never
  \<open>None\<close>, so the first branch of the source is not taken; a missing cell is the float
  NaN and goes through \<open>str\<close>.
\<close>

definition normalize_text :: "lib \<Rightarrow> cell \<Rightarrow> ustr" where
  "normalize_text L c =
     (let s = cell_str L c;
          s = lib_nfkd L s;
          s = filter (\<lambda>ch. \<not> lib_combining L ch) s
      in py_strip (lib_lower L s))"

section \<open>Statement reader\<close>

text \<open>\<open>str.splitlines()\<close>: the line boundaries of Python, CR LF taken as one.\<close>

definition is_linebreak :: "nat \<Rightarrow> bool" where
  "is_linebreak c = ((10 \<le> c \<and> c \<le> 13) \<or> (28 \<le> c \<and> c \<le> 30) \<or> c = 133 \<or> c = 8232 \<or> c = 8233)"

fun splitlines_from :: "ustr \<Rightarrow> ustr \<Rightarrow> ustr list" where
  "splitlines_from cur [] = (if cur = [] then [] else [rev cur])"
| "splitlines_from cur [c] = (if is_linebreak c then [rev cur] else [rev (c # cur)])"
| "splitlines_from cur (c # d # cs) =
     (if c = 13 \<and> d = 10 then rev cur # splitlines_from [] cs
      else if is_linebreak c then rev cur # splitlines_from [] (d # cs)
      else splitlines_from (c # cur) (d # cs))"

definition splitlines :: "ustr \<Rightarrow> ustr list" where
  "splitlines text = splitlines_from [] text"

text \<open>The loop that looks for the header line: the index of the first line that starts with \<open>data;\<close>.\<close>

definition is_header :: "lib \<Rightarrow> ustr \<Rightarrow> bool" where
  "is_header L line = startswith (lib_lower L (py_strip line)) (cp ''data;'')"

fun find_header :: "lib \<Rightarrow> nat \<Rightarrow> ustr list \<Rightarrow> nat option" where
  "find_header L i [] = None"
| "find_header L i (line # ls) = (if is_header L line then Some i else find_header L (Suc i) ls)"

fun join_lines :: "ustr list \<Rightarrow> ustr" where
  "join_lines [] = []"
| "join_lines [l] = l"
| "join_lines (l # m # ls) = l @ [10] @ join_lines (m # ls)"

definition Data :: ustr where "Data = cp ''Data''"
definition Tipo :: ustr where "Tipo = cp ''Tipo''"
definition Detalhe :: ustr where "Detalhe = cp ''Detalhe''"
definition Identificador :: ustr where "Identificador = cp ''Identificador''"
definition Valor :: ustr where "Valor = cp ''Valor''"
definition Observacao :: ustr where "Observacao = cp ''Observa'' @ [231, 227, 111]"
definition Valor_raw :: ustr where "Valor_raw = cp ''Valor_raw''"
definition Arquivo :: ustr where "Arquivo = cp ''Arquivo''"

text \<open>The entry of \<open>rename_map\<close> for one column, if the loop makes one.\<close>

definition rename_entry :: "lib \<Rightarrow> ustr \<Rightarrow> ustr option" where
  "rename_entry L col =
     (let c = lib_lower L (py_strip col) in
      if startswith c (cp ''data'') then Some Data
      else if startswith c (cp ''tipo'') then Some Tipo
      else if startswith c (cp ''detalhe'') then Some Detalhe
      else if contains c (cp ''identificador'') then Some Identificador
      else if startswith c (cp ''valor'') then Some Valor
      else if contains c (cp ''observa'') then Some Observacao
      else None)"

definition rename_map :: "lib \<Rightarrow> ustr \<Rightarrow> ustr" where
  "rename_map L col = (case rename_entry L col of Some n \<Rightarrow> n | None \<Rightarrow> col)"

text \<open>\<open>if c not in df.columns: df[c] = ""\<close>\<close>

definition add_missing :: "ustr \<Rightarrow> cell frame \<Rightarrow> cell frame" where
  "add_missing c df = (if c \<notin> set (labels df) then setcol df c (replicate (nrows df) (S [])) else df)"

definition six_columns :: "ustr list" where
  "six_columns = [Data, Tipo, Detalhe, Identificador, Valor, Observacao]"

definition seven_columns :: "ustr list" where
  "seven_columns = [Data, Tipo, Detalhe, Identificador, Valor, Observacao, Valor_raw]"

text \<open>
  Lines 55 to 77 of the reader, on the table \<open>pd.read_csv\<close> returned. \<open>df["Valor"]\<close> is a
  Series when one column carries the label; when several do it is a DataFrame, and
  assigning it to the single column \<open>Valor_raw\<close> raises ValueError.
\<close>

definition reconcile :: "lib \<Rightarrow> ustr frame \<Rightarrow> error + cell frame" where
  "reconcile L raw =
     (let df = \<lparr>columns = map (\<lambda>p. (fst p, map S (snd p))) (columns raw), nrows = nrows raw\<rparr>;
          df = rename_columns py_strip df;
          df = rename_columns (rename_map L) df;
          df = fold add_missing six_columns df
      in case getcols df Valor of
           [] \<Rightarrow> Inl KeyError
         | [v] \<Rightarrow>
             (let df = setcol df Valor_raw v;
                  df = setcol df Valor (map F (clean_val L v))
              in Inr (project df seven_columns))
         | _ \<Rightarrow> Inl ValueError)"

definition no_frame :: "cell frame" where
  "no_frame = \<lparr>columns = [], nrows = 0\<rparr>"

definition read_bs2_csv :: "lib \<Rightarrow> nat list \<Rightarrow> error + cell frame" where
  "read_bs2_csv L file_bytes =
     (let enc = detect_encoding L file_bytes;
          text = lib_decode L enc file_bytes;
          lines = splitlines text
      in case find_header L 0 lines of
           None \<Rightarrow> Inr no_frame
         | Some header_idx \<Rightarrow>
             (case lib_read_csv L (join_lines (drop header_idx lines)) of
                Inl e \<Rightarrow> Inl e
              | Inr raw \<Rightarrow> reconcile L raw))"

section \<open>Consolidator\<close>







section \<open>Classifier and aggregator\<close>

text \<open>\<open>df[mask]\<close>: the rows where the mask holds, in every column.\<close>

definition select_rows :: "'c frame \<Rightarrow> bool list \<Rightarrow> 'c frame" where
  "select_rows df keep =
     \<lparr>columns = map (\<lambda>p. (fst p, map fst (filter snd (zip (snd p) keep)))) (columns df),
      nrows = length (filter id keep)\<rparr>"

text \<open>
  \<open>Series.sum()\<close> of a float column skips the missing values and starts from zero.
  A column that holds strings has no float sum (TypeError in the model; the reader always
  makes the Valor column a float column).
\<close>

definition is_float :: "cell \<Rightarrow> bool" where
  "is_float c = (case c of F _ \<Rightarrow> True | S _ \<Rightarrow> False)"

definition float_of :: "cell \<Rightarrow> fval" where
  "float_of c = (case c of F v \<Rightarrow> v | S _ \<Rightarrow> NaN)"

definition nansum :: "fval list \<Rightarrow> fval" where
  "nansum vs = foldl fadd (Fin 0) (filter (\<lambda>v. v \<noteq> NaN) vs)"

definition col_sum :: "cell list \<Rightarrow> error + fval" where
  "col_sum cells = (if list_all is_float cells then Inr (nansum (map float_of cells)) else Inl TypeError)"

text \<open>\<open>float(sub["Valor"].sum()) if not sub.empty else 0.0\<close>\<close>

definition total_of :: "cell frame \<Rightarrow> error + fval" where
  "total_of sub =
     (if empty_frame sub then Inr (Fin 0)
      else case getcols sub Valor of
             [] \<Rightarrow> Inl KeyError
           | [v] \<Rightarrow> col_sum v
           | _ \<Rightarrow> Inl TypeError)"

definition fee_key :: ustr where "fee_key = cp ''tarifa operacoes pix''"
definition refund_key :: ustr where "refund_key = cp ''devolucao recebida pix''"

definition filter_and_totals :: "lib \<Rightarrow> cell frame \<Rightarrow> error + (cell frame \<times> cell frame \<times> fval \<times> fval)" where
  "filter_and_totals L df =
     (if empty_frame df then Inr (df, df, Fin 0, Fin 0)
      else case getcols df Tipo of
             [] \<Rightarrow> Inl KeyError
           | [tipo] \<Rightarrow>
               (let tipo_norm = map (normalize_text L) tipo;
                    tarifa_mask = map (\<lambda>s. contains s fee_key) tipo_norm;
                    devol_mask = map (\<lambda>s. contains s refund_key) tipo_norm;
                    tarifa = select_rows df tarifa_mask;
                    devol = select_rows df devol_mask
                in case total_of tarifa of
                     Inl e \<Rightarrow> Inl e
                   | Inr total_tarifa \<Rightarrow>
                       (case total_of devol of
                          Inl e \<Rightarrow> Inl e
                        | Inr total_devol \<Rightarrow> Inr (tarifa, devol, total_tarifa, total_devol)))
           | _ \<Rightarrow> Inl AttributeError)"

section \<open>Summary per file\<close>

text \<open>
  \<open>resumo_arquivo\<close>: one line per distinct file name, in sorted order, with the number of
  rows of the file and the two sums over the rows of the file whose normalized Tipo
  \<^emph>\<open>equals\<close> the category text (\<open>Series.eq\<close>). Rows whose Arquivo is not a string form no
  group in the model.
\<close>

definition group_keys :: "cell list \<Rightarrow> ustr list" where
  "group_keys arq = sort (remdups (concat (map (\<lambda>c. case c of S n \<Rightarrow> [n] | F _ \<Rightarrow> []) arq)))"

definition group_total :: "lib \<Rightarrow> cell frame \<Rightarrow> cell list \<Rightarrow> cell list \<Rightarrow> ustr \<Rightarrow> ustr \<Rightarrow> error + fval" where
  "group_total L df arq tipo name key =
     (let g = select_rows df (map (\<lambda>c. c = S name) arq);
          tipo_g = map fst (filter snd (zip tipo (map (\<lambda>c. c = S name) arq)));
          sel = select_rows g (map (\<lambda>c. normalize_text L c = key) tipo_g)
      in case getcols sel Valor of
           [] \<Rightarrow> Inl KeyError
         | [v] \<Rightarrow> col_sum v
         | _ \<Rightarrow> Inl TypeError)"

fun resumo_rows :: "lib \<Rightarrow> cell frame \<Rightarrow> cell list \<Rightarrow> cell list \<Rightarrow> ustr list \<Rightarrow> error + (ustr \<times> nat \<times> fval \<times> fval) list" where
  "resumo_rows L df arq tipo [] = Inr []"
| "resumo_rows L df arq tipo (name # names) =
     (case group_total L df arq tipo name fee_key of
        Inl e \<Rightarrow> Inl e
      | Inr total_tarifa \<Rightarrow>
          (case group_total L df arq tipo name refund_key of
             Inl e \<Rightarrow> Inl e
           | Inr total_devol \<Rightarrow>
               (case resumo_rows L df arq tipo names of
                  Inl e \<Rightarrow> Inl e
                | Inr rest \<Rightarrow>
                    Inr ((name, length (filter (\<lambda>c. c = S name) arq), total_tarifa, total_devol) # rest))))"

definition resumo_arquivo :: "lib \<Rightarrow> cell frame \<Rightarrow> error + (ustr \<times> nat \<times> fval \<times> fval) list" where
  "resumo_arquivo L df =
     (case getcols df Tipo of
        [] \<Rightarrow> Inl KeyError
      | [tipo] \<Rightarrow>
          (case getcols df Arquivo of
             [] \<Rightarrow> Inl KeyError
           | [arq] \<Rightarrow> resumo_rows L df arq tipo (group_keys arq)
           | _ \<Rightarrow> Inl ValueError)
      | _ \<Rightarrow> Inl AttributeError)"

section \<open>Detail sheets of the workbook\<close>

text \<open>
  \<open>df.sort_values(by=label, na_position="last")\<close>. Strings are compared code point by code
  point, floats by value, the missing value goes last; a column that mixes strings with
  numbers cannot be compared (TypeError), and a label carried by several columns is
  refused (ValueError). Rows with equal keys keep their order here; pandas' default
  sort does not promise that.
\<close>

definition is_missing :: "cell \<Rightarrow> bool" where
  "is_missing c = (c = F NaN)"

definition sort_key_of :: "cell \<Rightarrow> nat \<times> real \<times> ustr" where
  "sort_key_of c =
     (case c of
        S s \<Rightarrow> (1, 0, s)
      | F NInf \<Rightarrow> (0, 0, [])
      | F (Fin x) \<Rightarrow> (1, x, [])
      | F PInf \<Rightarrow> (2, 0, [])
      | F NaN \<Rightarrow> (3, 0, []))"

definition sortable :: "cell list \<Rightarrow> bool" where
  "sortable cells = (list_all (\<lambda>c. \<not> is_float c \<or> is_missing c) cells \<or> list_all is_float cells)"

definition reorder :: "nat list \<Rightarrow> 'c frame \<Rightarrow> 'c frame" where
  "reorder perm df = df\<lparr>columns := map (\<lambda>p. (fst p, map (\<lambda>i. snd p ! i) perm)) (columns df)\<rparr>"

definition sort_values :: "cell frame \<Rightarrow> ustr \<Rightarrow> error + cell frame" where
  "sort_values df by =
     (case getcols df by of
        [] \<Rightarrow> Inl KeyError
      | [k] \<Rightarrow>
          (if sortable k
           then Inr (reorder (sort_key (\<lambda>i. sort_key_of (k ! i)) [0 ..< length k]) df)
           else Inl TypeError)
      | _ \<Rightarrow> Inl ValueError)"

definition sheet_columns :: "ustr list" where
  "sheet_columns = [Arquivo, Data, Tipo, Detalhe, Identificador, Valor, Observacao]"

text \<open>
  One detail sheet of \<open>to_excel_bytes\<close>: the table after the in-place sort, and the
  table written to the sheet.
\<close>

definition detail_sheet :: "cell frame \<Rightarrow> error + (cell frame \<times> cell frame)" where
  "detail_sheet sub =
     (if \<not> empty_frame sub
      then (let cols = filter (\<lambda>c. c \<in> set (labels sub)) sheet_columns in
            case sort_values sub Data of
              Inl e \<Rightarrow> Inl e
            | Inr sub' \<Rightarrow> Inr (sub', project sub' cols))
      else Inr (sub, \<lparr>columns = map (\<lambda>l. (l, [])) sheet_columns, nrows = 0\<rparr>))"

section \<open>Tables as objects\<close>

text \<open>
  A DataFrame is a mutable object. The heap is the list of the tables that exist, an
  address is an index into it, \<open>copy()\<close> and \<open>df[mask]\<close> make a new table at a new
  address, and \<open>sort_values(inplace=True)\<close> overwrites the table at its address.
\<close>

type_synonym heap = "cell frame list"

definition filter_and_totals_h :: "lib \<Rightarrow> heap \<Rightarrow> nat \<Rightarrow> error + (heap \<times> nat \<times> nat \<times> fval \<times> fval)" where
  "filter_and_totals_h L h df =
     (case filter_and_totals L (h ! df) of
        Inl e \<Rightarrow> Inl e
      | Inr (tarifa, devol, total_tarifa, total_devol) \<Rightarrow>
          Inr (h @ [tarifa, devol], length h, Suc (length h), total_tarifa, total_devol))"

text \<open>
  \<open>to_excel_bytes\<close> on the heap: the refund sheet first, then the fee sheet; the result is
  the heap afterwards and the two sheets written. An error leaves the heap as it was
  when it was raised.
\<close>

definition to_excel_h :: "heap \<Rightarrow> nat \<Rightarrow> nat \<Rightarrow> heap \<times> (error + (cell frame \<times> cell frame))" where
  "to_excel_h h devol tarifa =
     (case detail_sheet (h ! devol) of
        Inl e \<Rightarrow> (h, Inl e)
      | Inr (d_sorted, d_sheet) \<Rightarrow>
          (let h1 = h[devol := d_sorted] in
           case detail_sheet (h1 ! tarifa) of
             Inl e \<Rightarrow> (h1, Inl e)
           | Inr (t_sorted, t_sheet) \<Rightarrow> (h1[tarifa := t_sorted], Inr (d_sheet, t_sheet))))"

section \<open>Session collection\<close>



section \<open>The library on plain ASCII input\<close>

text \<open>
  For worked examples the library parameters are instantiated for ASCII input: chardet
  answers \<open>ascii\<close>, decoding maps a byte below 128 to its code point and any other byte
  to U+FFFD, lowercasing touches A to Z, no character decomposes or combines.
  \<open>split_csv\<close> is \<open>pd.read_csv(sep=";", dtype=str, keep_default_na=False)\<close> on text
  without quote characters whose header names are distinct and non-empty and whose first
  data row is not longer than the header: blank lines are skipped, a short row is filled
  with empty strings, a longer row is a ParserError.
\<close>

fun split_on :: "nat \<Rightarrow> ustr \<Rightarrow> ustr \<Rightarrow> ustr list" where
  "split_on sep cur [] = [rev cur]"
| "split_on sep cur (c # cs) = (if c = sep then rev cur # split_on sep [] cs else split_on sep (c # cur) cs)"

definition split_csv :: "ustr \<Rightarrow> error + ustr frame" where
  "split_csv text =
     (case filter (\<lambda>l. \<not> list_all (\<lambda>c. c = 32 \<or> c = 9) l) (split_on 10 [] text) of
        [] \<Rightarrow> Inl ParserError
      | h # rs \<Rightarrow>
          (let names = split_on 59 [] h; rows = map (split_on 59 []) rs in
           if list_ex (\<lambda>r. length names < length r) rows then Inl ParserError
           else Inr \<lparr>columns = map (\<lambda>i. (names ! i, map (\<lambda>r. if i < length r then r ! i else []) rows))
                                    [0 ..< length names],
                     nrows = length rows\<rparr>))"

fun decimal :: "nat \<Rightarrow> ustr" where
  "decimal n = (if n < 10 then [48 + n] else decimal (n div 10) @ [48 + n mod 10])"

fun frac_digits :: "nat \<Rightarrow> real \<Rightarrow> ustr" where
  "frac_digits 0 x = []"
| "frac_digits (Suc k) x =
     (if x = 0 then [] else (48 + nat \<lfloor>10 * x\<rfloor>) # frac_digits k (10 * x - of_int \<lfloor>10 * x\<rfloor>))"

text \<open>\<open>str\<close> of a float, for the magnitudes Python prints without an exponent.\<close>

definition float_str :: "fval \<Rightarrow> ustr" where
  "float_str v =
     (case v of
        NaN \<Rightarrow> cp ''nan''
      | PInf \<Rightarrow> cp ''inf''
      | NInf \<Rightarrow> cp ''-inf''
      | Fin x \<Rightarrow>
          (if x < 0 then [45] else []) @ decimal (nat \<lfloor>\<bar>x\<bar>\<rfloor>) @ [46]
          @ (let f = frac_digits 16 (\<bar>x\<bar> - of_int \<lfloor>\<bar>x\<bar>\<rfloor>) in if f = [] then [48] else f))"

definition ascii_lib :: lib where
  "ascii_lib =
     \<lparr>lib_chardet = (\<lambda>b. if b = [] then None else Some (cp ''ascii'')),
      lib_decode = (\<lambda>enc b. map (\<lambda>x. if x < 128 then x else 65533) b),
      lib_lower = map ascii_lower,
      lib_nfkd = (\<lambda>s. s),
      lib_combining = (\<lambda>c. False),
      lib_float_str = float_str,
      lib_read_csv = split_csv\<rparr>"

section \<open>The strings of the leading-minus notation\<close>



section \<open>Intermediate values of the reader\<close>

text \<open>
  The lines the header search runs over, the table after the two renames of lines 55 to
  71, and its labels.
\<close>

definition decoded_lines :: "lib \<Rightarrow> nat list \<Rightarrow> ustr list" where
  "decoded_lines L file_bytes = splitlines (lib_decode L (detect_encoding L file_bytes) file_bytes)"

definition renamed :: "lib \<Rightarrow> ustr frame \<Rightarrow> cell frame" where
  "renamed L raw =
     rename_columns (rename_map L) (rename_columns py_strip
       \<lparr>columns = map (\<lambda>p. (fst p, map S (snd p))) (columns raw), nrows = nrows raw\<rparr>)"

definition reconciled_labels :: "lib \<Rightarrow> ustr frame \<Rightarrow> ustr list" where
  "reconciled_labels L raw = map (\<lambda>l. rename_map L (py_strip l)) (labels raw)"

section \<open>Example files\<close>



text \<open>A file with two columns that both reconcile to Data.\<close>

definition dup_data_file :: "nat list" where
  "dup_data_file = cp ''Data;Data ref;Valor'' @ [10] @ cp ''01/01;02/01;2,00''"

definition dup_data_raw :: "ustr frame" where
  "dup_data_raw =
     \<lparr>columns = [(cp ''Data'', [cp ''01/01'']), (cp ''Data ref'', [cp ''02/01'']), (cp ''Valor'', [cp ''2,00''])],
      nrows = 1\<rparr>"

text \<open>A file with a date and a type only.\<close>

definition no_valor_file :: "nat list" where
  "no_valor_file = cp ''Data;Tipo'' @ [10] @ cp ''01/01;x''"

definition no_valor_raw :: "ustr frame" where
  "no_valor_raw = \<lparr>columns = [(cp ''Data'', [cp ''01/01'']), (cp ''Tipo'', [cp ''x''])], nrows = 1\<rparr>"

section \<open>The totals in the words of the specification\<close>

text \<open>
  The Values of the rows whose normalized Tipo contains the category text, their sum with
  the missing values left out, and the numbers among a list of floats.
\<close>

definition matching_values :: "lib \<Rightarrow> ustr \<Rightarrow> cell list \<Rightarrow> cell list \<Rightarrow> fval list" where
  "matching_values L key tipo valor =
     map (\<lambda>r. float_of (snd r)) (filter (\<lambda>r. contains (normalize_text L (fst r)) key) (zip tipo valor))"

definition spec_total :: "lib \<Rightarrow> ustr \<Rightarrow> cell list \<Rightarrow> cell list \<Rightarrow> fval" where
  "spec_total L key tipo valor = nansum (matching_values L key tipo valor)"



section \<open>Example tables\<close>

text \<open>A consolidated table given by its rows (Data, Tipo, Valor, Arquivo); the other text columns are empty.\<close>

definition table_of :: "(ustr \<times> ustr \<times> fval \<times> ustr) list \<Rightarrow> cell frame" where
  "table_of rs =
     \<lparr>columns =
        [(Data, map (\<lambda>r. S (fst r)) rs),
         (Tipo, map (\<lambda>r. S (fst (snd r))) rs),
         (Detalhe, map (\<lambda>r. S []) rs),
         (Identificador, map (\<lambda>r. S []) rs),
         (Valor, map (\<lambda>r. F (fst (snd (snd r)))) rs),
         (Observacao, map (\<lambda>r. S []) rs),
         (Valor_raw, map (\<lambda>r. S []) rs),
         (Arquivo, map (\<lambda>r. S (snd (snd (snd r)))) rs)],
      nrows = length rs\<rparr>"

definition three_rows :: "(ustr \<times> ustr \<times> fval \<times> ustr) list" where
  "three_rows =
     [(cp ''01/01'', cp ''TARIFA OPERACOES PIX'', Fin 10, cp ''a.csv''),
      (cp ''02/01'', cp ''Devolucao Recebida PIX'', Fin 25, cp ''a.csv''),
      (cp ''03/01'', cp ''Outro'', Fin 5, cp ''a.csv'')]"


definition longer_type_row :: "(ustr \<times> ustr \<times> fval \<times> ustr) list" where
  "longer_type_row = [(cp ''01/01'', cp ''Tarifa Operacoes Pix - lote'', Fin 10, cp ''a.csv'')]"

section \<open>Reading a Date cell\<close>



section \<open>What the consolidator reads\<close>




section \<open>Properties of the numeric parser\<close>

lemmas clean_val_eval =
  clean_val_def clean_val1_def cell_str_def cp_def trailing_minus_def in_num_class_def is_digit_def
  to_numeric_def strip_blanks_def is_blank_def parse_unsigned_def ascii_lower_def parse_mantissa_def
  digits_val_def

text \<open>
  C5. Element by element, \<open>clean_val\<close> sends \<open>R$ 1.234,56\<close> to 1234.56, \<open>0,45-\<close> to -0.45,
  the empty string to the missing value and \<open>R$ -1,00\<close> to -1.0.
\<close>

theorem clean_val_examples:
  "clean_val L [S (cp ''R$ 1.234,56'')] = [Fin 1234.56]
   \<and> clean_val L [S (cp ''0,45-'')] = [Fin (- 0.45)]
   \<and> clean_val L [S []] = [NaN]
   \<and> clean_val L [S (cp ''R$ -1,00'')] = [Fin (- 1.0)]"
  by (simp add: clean_val_eval)



lemma concat_map_id: "a \<notin> set s \<Longrightarrow> concat (map (\<lambda>c. if c = a then new else [c]) s) = s"
  by (induction s) auto











section \<open>Properties of the table operations\<close>

lemma labels_rename_columns: "labels (rename_columns f df) = map f (labels df)"
  by (simp add: labels_def rename_columns_def)

lemma nrows_rename_columns: "nrows (rename_columns f df) = nrows df"
  by (simp add: rename_columns_def)

lemma nrows_setcol: "nrows (setcol df l v) = nrows df"
  by (simp add: setcol_def)

lemma nrows_project: "nrows (project df ls) = nrows df"
  by (simp add: project_def)

lemma getcols_length: "length (getcols df l) = count_list (labels df) l"
proof -
  have "length (filter (\<lambda>p. fst p = l) ps) = count_list (map fst ps) l" for ps :: "(ustr \<times> 'a list) list"
    by (induction ps) auto
  then show ?thesis by (simp add: getcols_def labels_def)
qed

lemma getcols_setcol_other: "l' \<noteq> l \<Longrightarrow> getcols (setcol df l v) l' = getcols df l'"
proof -
  assume ne: "l' \<noteq> l"
  have "filter (\<lambda>p. fst p = l') (map (\<lambda>p. if fst p = l then (l, v) else p) ps) = filter (\<lambda>p. fst p = l') ps"
    for ps :: "(ustr \<times> 'a list) list"
    using ne by (induction ps) auto
  then show ?thesis using ne by (simp add: getcols_def setcol_def)
qed

lemma getcols_setcol_same:
  "getcols (setcol df l v) l = replicate (max 1 (count_list (labels df) l)) v"
proof -
  have a: "map snd (filter (\<lambda>p. fst p = l) (map (\<lambda>p. if fst p = l then (l, v) else p) ps))
        = replicate (count_list (map fst ps) l) v" for ps :: "(ustr \<times> 'a list) list"
    by (induction ps) auto
  have b: "l \<notin> set (map fst ps) \<Longrightarrow> filter (\<lambda>p. fst p = l) ps = []" for ps :: "(ustr \<times> 'a list) list"
    by (induction ps) auto
  show ?thesis
  proof (cases "l \<in> set (labels df)")
    case True
    then have "count_list (labels df) l > 0" using count_list_0_iff[of "labels df" l] by simp
    then have "max 1 (count_list (labels df) l) = count_list (labels df) l" by simp
    with True show ?thesis using a[of "columns df"] by (simp add: getcols_def setcol_def labels_def)
  next
    case False
    then have "count_list (labels df) l = 0" by (simp add: count_list_0_iff)
    with False show ?thesis using b[of "columns df"] by (simp add: getcols_def setcol_def labels_def)
  qed
qed

lemma labels_setcol:
  "labels (setcol df l v) = (if l \<in> set (labels df) then labels df else labels df @ [l])"
proof -
  have "map fst (map (\<lambda>p. if fst p = l then (l, v) else p) ps) = map fst ps" for ps :: "(ustr \<times> 'a list) list"
    by (induction ps) auto
  then show ?thesis by (simp add: labels_def setcol_def)
qed

lemma columns_fold_add_missing:
  "distinct cs \<Longrightarrow>
   columns (fold add_missing cs df)
   = columns df @ map (\<lambda>c. (c, replicate (nrows df) (S []))) (filter (\<lambda>c. c \<notin> set (labels df)) cs)"
proof (induction cs arbitrary: df)
  case Nil
  then show ?case by simp
next
  case (Cons c cs)
  show ?case
  proof (cases "c \<in> set (labels df)")
    case True
    then have "add_missing c df = df" by (simp add: add_missing_def)
    with Cons True show ?thesis by simp
  next
    case False
    let ?d = "add_missing c df"
    have d: "columns ?d = columns df @ [(c, replicate (nrows df) (S []))]" "nrows ?d = nrows df"
      "labels ?d = labels df @ [c]"
      using False by (simp_all add: add_missing_def setcol_def labels_def)
    have "filter (\<lambda>x. x \<notin> set (labels ?d)) cs = filter (\<lambda>x. x \<notin> set (labels df)) cs"
      using Cons.prems by (auto simp: d intro: filter_cong)
    with Cons False d show ?thesis by simp
  qed
qed

lemma nrows_fold_add_missing: "nrows (fold add_missing cs df) = nrows df"
  by (induction cs arbitrary: df) (auto simp: add_missing_def nrows_setcol)


lemma labels_renamed: "labels (renamed L raw) = reconciled_labels L raw"
  by (simp add: renamed_def rename_columns_def reconciled_labels_def labels_def comp_def)

lemma nrows_renamed: "nrows (renamed L raw) = nrows raw"
  by (simp add: renamed_def nrows_rename_columns)

lemma distinct_six: "distinct six_columns"
  by (simp add: six_columns_def Data_def Tipo_def Detalhe_def Identificador_def Valor_def
      Observacao_def cp_def)

lemma distinct_seven: "distinct seven_columns"
  by (simp add: seven_columns_def Data_def Tipo_def Detalhe_def Identificador_def Valor_def
      Observacao_def Valor_raw_def cp_def)

lemma labels_filled:
  "labels (fold add_missing six_columns df)
   = labels df @ filter (\<lambda>c. c \<notin> set (labels df)) six_columns"
  using columns_fold_add_missing[OF distinct_six, of df]
  by (simp add: labels_def comp_def)

lemma count_list_filter_distinct:
  "distinct cs \<Longrightarrow> count_list (filter P cs) c = (if c \<in> set cs \<and> P c then 1 else 0)"
  by (induction cs) auto

lemma count_filled:
  "count_list (labels (fold add_missing six_columns df)) c
   = (if c \<in> set six_columns then max 1 (count_list (labels df) c) else count_list (labels df) c)"
proof -
  have "c \<in> set (labels df) \<Longrightarrow> count_list (labels df) c > 0"
    using count_list_0_iff[of "labels df" c] by simp
  then show ?thesis
    unfolding labels_filled
    by (auto simp: count_list_filter_distinct[OF distinct_six] max_def)
qed

lemma Valor_in_six: "Valor \<in> set six_columns"
  by (simp add: six_columns_def)

lemma reconcile_cases:
  "reconcile L raw =
     (case getcols (fold add_missing six_columns (renamed L raw)) Valor of
        [] \<Rightarrow> Inl KeyError
      | [v] \<Rightarrow> Inr (project (setcol (setcol (fold add_missing six_columns (renamed L raw)) Valor_raw v)
                       Valor (map F (clean_val L v))) seven_columns)
      | _ \<Rightarrow> Inl ValueError)"
  unfolding reconcile_def renamed_def Let_def ..



lemma filter_eq_replicate: "filter (\<lambda>x. x = l) xs = replicate (count_list xs l) l"
  by (induction xs) auto

lemma labels_project:
  "labels (project df ls) = concat (map (\<lambda>l. replicate (count_list (labels df) l) l) ls)"
proof -
  have "map fst (filter (\<lambda>p. fst p = l) ps) = replicate (count_list (map fst ps) l) l"
    for ps :: "(ustr \<times> 'a list) list" and l
    by (induction ps) auto
  then show ?thesis
    by (simp add: labels_def project_def map_concat comp_def)
qed

lemma labels_project_once:
  assumes "\<forall>l \<in> set ls. count_list (labels df) l = 1"
  shows "labels (project df ls) = ls"
proof -
  have "concat (map (\<lambda>l. replicate (count_list (labels df) l) l) ls) = concat (map (\<lambda>l. [l]) ls)"
    using assms by (intro arg_cong[where f = concat] map_cong) auto
  then show ?thesis by (simp add: labels_project)
qed

lemma getcols_project:
  assumes "distinct ls"
  shows "getcols (project df ls) c = (if c \<in> set ls then getcols df c else [])"
proof -
  have "filter (\<lambda>p. fst p = c) (concat (map (\<lambda>l. filter (\<lambda>p. fst p = l) ps) ls))
        = (if c \<in> set ls then filter (\<lambda>p. fst p = c) ps else [])"
    for ps :: "(ustr \<times> 'a list) list"
    using assms
  proof (induction ls)
    case Nil
    then show ?case by simp
  next
    case (Cons l ls)
    have a: "filter (\<lambda>p. fst p = c) (filter (\<lambda>p. fst p = l) ps) = (if l = c then filter (\<lambda>p. fst p = c) ps else [])"
      by (induction ps) auto
    from Cons show ?case by (auto simp: a simp del: filter_filter)
  qed
  then show ?thesis by (simp add: getcols_def project_def)
qed

lemma count_setcol:
  "count_list (labels (setcol df l v)) c = (if c = l then max 1 (count_list (labels df) c) else count_list (labels df) c)"
proof -
  have "l \<in> set (labels df) \<Longrightarrow> count_list (labels df) l > 0"
    using count_list_0_iff[of "labels df" l] by simp
  then show ?thesis by (auto simp: labels_setcol max_def)
qed


lemma filter_map_pick:
  "distinct cs \<Longrightarrow> c \<in> set cs \<Longrightarrow> P c \<Longrightarrow>
   filter (\<lambda>p. fst p = c) (map (\<lambda>c. (c, g c)) (filter P cs)) = [(c, g c)]"
proof (induction cs)
  case Nil
  then show ?case by simp
next
  case (Cons a cs)
  show ?case
  proof (cases "a = c")
    case True
    with Cons.prems have "c \<notin> set cs" by simp
    then have "filter (\<lambda>p. fst p = c) (map (\<lambda>c. (c, g c)) (filter P cs)) = []"
      by (auto simp: filter_empty_conv)
    with True Cons.prems show ?thesis by simp
  next
    case False
    with Cons show ?thesis by auto
  qed
qed

lemma getcols_filled_absent:
  assumes "c \<in> set six_columns" "c \<notin> set (labels df)"
  shows "getcols (fold add_missing six_columns df) c = [replicate (nrows df) (S [])]"
proof -
  have 1: "filter (\<lambda>p. fst p = c) (columns df) = []"
    using assms(2) by (auto simp: labels_def filter_empty_conv)
  have 2: "filter (\<lambda>p. fst p = c)
             (map (\<lambda>c. (c, replicate (nrows df) (S []))) (filter (\<lambda>c. c \<notin> set (labels df)) six_columns))
           = [(c, replicate (nrows df) (S []))]"
    using filter_map_pick[OF distinct_six assms(1), of "\<lambda>c. c \<notin> set (labels df)" "\<lambda>c. replicate (nrows df) (S [])"] assms(2)
    by simp
  show ?thesis
    by (simp add: getcols_def columns_fold_add_missing[OF distinct_six] 1 2)
qed

lemma clean_val_empty_cells: "clean_val L (replicate n (S [])) = replicate n NaN"
  by (simp add: clean_val_eval)


lemma six_in_seven: "c \<in> set six_columns \<Longrightarrow> c \<in> set seven_columns"
  by (auto simp: six_columns_def seven_columns_def)

lemma Valor_raw_not_six: "Valor_raw \<notin> set six_columns"
  using distinct_seven by (auto simp: six_columns_def seven_columns_def)

lemma Valor_raw_in_seven: "Valor_raw \<in> set seven_columns"
  by (simp add: seven_columns_def)

lemma seven_is_six_plus: "set seven_columns = insert Valor_raw (set six_columns)"
  by (auto simp: six_columns_def seven_columns_def)

lemma singleton_replicate: "length xs = 1 \<Longrightarrow> \<exists>v. xs = [v]"
  by (cases xs) auto

lemma reconcile_columns:
  assumes once: "\<forall>c \<in> set seven_columns. count_list (reconciled_labels L raw) c \<le> 1"
  shows "\<exists>t. reconcile L raw = Inr t \<and> labels t = seven_columns \<and> nrows t = nrows raw
     \<and> (\<forall>c \<in> set six_columns. c \<noteq> Valor \<and> c \<notin> set (reconciled_labels L raw)
            \<longrightarrow> getcols t c = [replicate (nrows raw) (S [])])
     \<and> (Valor \<notin> set (reconciled_labels L raw)
            \<longrightarrow> getcols t Valor_raw = [replicate (nrows raw) (S [])]
              \<and> getcols t Valor = [replicate (nrows raw) (F NaN)])"
proof -
  let ?r = "renamed L raw"
  let ?d = "fold add_missing six_columns ?r"
  have l0: "labels ?r = reconciled_labels L raw" by (rule labels_renamed)
  have n0: "nrows ?r = nrows raw" by (rule nrows_renamed)
  have c6: "count_list (labels ?d) c = 1" if "c \<in> set six_columns" for c
    using that once six_in_seven[OF that] by (auto simp: count_filled l0 max_def)
  have craw: "count_list (labels ?d) Valor_raw \<le> 1"
    using once Valor_raw_in_seven by (simp add: count_filled l0 Valor_raw_not_six)
  have "length (getcols ?d Valor) = 1"
    by (simp add: getcols_length c6 Valor_in_six)
  then obtain v where v: "getcols ?d Valor = [v]"
    using singleton_replicate by blast
  let ?e = "setcol (setcol ?d Valor_raw v) Valor (map F (clean_val L v))"
  let ?t = "project ?e seven_columns"
  have rec: "reconcile L raw = Inr ?t"
    by (simp add: reconcile_cases v)
  have ne: "Valor \<noteq> Valor_raw"
    using Valor_raw_not_six Valor_in_six by auto
  have ce: "count_list (labels ?e) c = 1" if "c \<in> set seven_columns" for c
  proof (cases "c = Valor_raw")
    case True
    with craw ne show ?thesis by (simp add: count_setcol max_def)
  next
    case False
    with that have "c \<in> set six_columns" by (simp add: seven_is_six_plus)
    then have "count_list (labels ?d) c = 1" by (rule c6)
    with False ne show ?thesis by (auto simp: count_setcol max_def)
  qed
  have lab: "labels ?t = seven_columns"
    using ce by (intro labels_project_once) simp
  have nr: "nrows ?t = nrows raw"
    by (simp add: nrows_project nrows_setcol nrows_fold_add_missing n0)
  have syn: "getcols ?t c = [replicate (nrows raw) (S [])]"
    if "c \<in> set six_columns" "c \<noteq> Valor" "c \<notin> set (reconciled_labels L raw)" for c
  proof -
    from that(1) have "c \<noteq> Valor_raw" using Valor_raw_not_six by auto
    with that show ?thesis
      by (simp add: getcols_project[OF distinct_seven] six_in_seven getcols_setcol_other
          getcols_filled_absent l0 n0)
  qed
  have val: "getcols ?t Valor_raw = [replicate (nrows raw) (S [])]
             \<and> getcols ?t Valor = [replicate (nrows raw) (F NaN)]"
    if "Valor \<notin> set (reconciled_labels L raw)"
  proof -
    have "getcols ?d Valor = [replicate (nrows raw) (S [])]"
      using that by (simp add: getcols_filled_absent Valor_in_six l0 n0)
    with v have vv: "v = replicate (nrows raw) (S [])" by simp
    have m1: "max 1 (count_list (labels ?d) Valor_raw) = 1" using craw by (simp add: max_def)
    have m2: "max 1 (count_list (labels (setcol ?d Valor_raw v)) Valor) = 1"
      using ne c6[OF Valor_in_six] by (simp add: count_setcol)
    have "getcols ?e Valor_raw = getcols (setcol ?d Valor_raw v) Valor_raw"
      using ne by (intro getcols_setcol_other) auto
    also have "\<dots> = replicate (max 1 (count_list (labels ?d) Valor_raw)) v"
      by (rule getcols_setcol_same)
    finally have a: "getcols ?e Valor_raw = [v]"
      unfolding m1 by simp
    have b: "getcols ?e Valor = [map F (clean_val L v)]"
      by (simp only: getcols_setcol_same m2) simp
    show ?thesis
      using a b
      by (simp add: getcols_project[OF distinct_seven] Valor_raw_in_seven six_in_seven[OF Valor_in_six]
          vv clean_val_empty_cells)
  qed
  show ?thesis
    using rec lab nr syn val by (intro exI[of _ ?t]) blast
qed


lemma reconcile_labels:
  assumes "count_list (reconciled_labels L raw) Valor \<le> 1"
  shows "map_sum id labels (reconcile L raw)
         = Inr (concat (map (\<lambda>c. replicate (max 1 (count_list (reconciled_labels L raw) c)) c) seven_columns))"
proof -
  let ?r = "renamed L raw"
  let ?d = "fold add_missing six_columns ?r"
  have l0: "labels ?r = reconciled_labels L raw" by (rule labels_renamed)
  have "length (getcols ?d Valor) = 1"
    using assms by (simp add: getcols_length count_filled Valor_in_six l0 max_def)
  then obtain v where v: "getcols ?d Valor = [v]"
    using singleton_replicate by blast
  let ?e = "setcol (setcol ?d Valor_raw v) Valor (map F (clean_val L v))"
  have rec: "reconcile L raw = Inr (project ?e seven_columns)"
    by (simp add: reconcile_cases v)
  have ne: "Valor \<noteq> Valor_raw"
    using Valor_raw_not_six Valor_in_six by auto
  have ce: "count_list (labels ?e) c = max 1 (count_list (reconciled_labels L raw) c)"
    if "c \<in> set seven_columns" for c
  proof (cases "c = Valor_raw")
    case True
    with ne show ?thesis by (simp add: count_setcol count_filled Valor_raw_not_six l0)
  next
    case False
    with that have "c \<in> set six_columns" by (simp add: seven_is_six_plus)
    with False ne show ?thesis by (auto simp: count_setcol count_filled l0)
  qed
  have "concat (map (\<lambda>l. replicate (count_list (labels ?e) l) l) seven_columns)
        = concat (map (\<lambda>c. replicate (max 1 (count_list (reconciled_labels L raw) c)) c) seven_columns)"
    using ce by (intro arg_cong[where f = concat] map_cong) auto
  then show ?thesis
    by (simp add: rec labels_project)
qed

lemma read_bs2_csv_stages:
  assumes "find_header L 0 (decoded_lines L b) = Some i"
    and "lib_read_csv L (join_lines (drop i (decoded_lines L b))) = Inr raw"
  shows "read_bs2_csv L b = reconcile L raw"
  using assms by (simp add: read_bs2_csv_def decoded_lines_def Let_def)

lemmas header_eval =
  is_header_def ascii_lib_def startswith_def py_strip_def is_space_def ascii_lower_def cp_def

lemmas labels_eval =
  reconciled_labels_def labels_def rename_map_def rename_entry_def ascii_lib_def startswith_def
  py_strip_def is_space_def ascii_lower_def cp_def Data_def Tipo_def Valor_def

lemmas lines_eval =
  decoded_lines_def ascii_lib_def detect_encoding_def cp_def splitlines_def is_linebreak_def






lemma dup_data_lines:
  "decoded_lines ascii_lib dup_data_file = [cp ''Data;Data ref;Valor'', cp ''01/01;02/01;2,00'']"
  by (simp add: dup_data_file_def lines_eval)

lemma dup_data_header:
  "find_header ascii_lib 0 [cp ''Data;Data ref;Valor'', cp ''01/01;02/01;2,00''] = Some 0"
  by (simp add: header_eval)

lemma dup_data_csv:
  "lib_read_csv ascii_lib (join_lines (drop 0 [cp ''Data;Data ref;Valor'', cp ''01/01;02/01;2,00'']))
   = Inr dup_data_raw"
  by (simp add: ascii_lib_def split_csv_def cp_def Let_def upt_rec dup_data_raw_def)

lemma dup_data_labels: "reconciled_labels ascii_lib dup_data_raw = [Data, Data, Valor]"
  by (simp add: dup_data_raw_def labels_eval)

lemma dup_data_reconcile: "read_bs2_csv ascii_lib dup_data_file = reconcile ascii_lib dup_data_raw"
  by (rule read_bs2_csv_stages[where i = 0]) (simp_all only: dup_data_lines dup_data_header dup_data_csv)

lemma no_valor_lines:
  "decoded_lines ascii_lib no_valor_file = [cp ''Data;Tipo'', cp ''01/01;x'']"
  by (simp add: no_valor_file_def lines_eval)

lemma no_valor_header:
  "find_header ascii_lib 0 [cp ''Data;Tipo'', cp ''01/01;x''] = Some 0"
  by (simp add: header_eval)

lemma no_valor_csv:
  "lib_read_csv ascii_lib (join_lines (drop 0 [cp ''Data;Tipo'', cp ''01/01;x''])) = Inr no_valor_raw"
  by (simp add: ascii_lib_def split_csv_def cp_def Let_def upt_rec no_valor_raw_def)

lemma no_valor_labels: "reconciled_labels ascii_lib no_valor_raw = [Data, Tipo]"
  by (simp add: no_valor_raw_def labels_eval)

lemma seven_distinct_names:
  "Data \<noteq> Tipo" "Data \<noteq> Detalhe" "Data \<noteq> Identificador" "Data \<noteq> Valor" "Data \<noteq> Observacao"
  "Data \<noteq> Valor_raw" "Tipo \<noteq> Detalhe" "Tipo \<noteq> Identificador" "Tipo \<noteq> Valor" "Tipo \<noteq> Observacao"
  "Tipo \<noteq> Valor_raw" "Detalhe \<noteq> Identificador" "Detalhe \<noteq> Valor" "Detalhe \<noteq> Observacao"
  "Detalhe \<noteq> Valor_raw" "Identificador \<noteq> Valor" "Identificador \<noteq> Observacao"
  "Identificador \<noteq> Valor_raw" "Valor \<noteq> Observacao" "Valor \<noteq> Valor_raw" "Observacao \<noteq> Valor_raw"
  using distinct_seven by (auto simp: seven_columns_def)

lemmas names_ne = seven_distinct_names seven_distinct_names[symmetric]

section \<open>Properties of the statement reader\<close>






text \<open>
  C6, as the code has it. When a header line is found, \<open>pd.read_csv\<close> accepts the text and
  no two of its columns are reconciled to the same canonical name, the table returned has
  exactly the seven columns Data, Tipo, Detalhe, Identificador, Valor, Observacao,
  Valor_raw in this order and as many rows as were read; a text column that no source
  column was reconciled to holds empty strings, and when no source column was reconciled
  to Valor, Valor_raw holds empty strings and Valor holds missing values.
\<close>

theorem read_bs2_csv_columns:
  assumes "find_header L 0 (decoded_lines L b) = Some i"
    and "lib_read_csv L (join_lines (drop i (decoded_lines L b))) = Inr raw"
    and "\<forall>c \<in> set seven_columns. count_list (reconciled_labels L raw) c \<le> 1"
  shows "\<exists>t. read_bs2_csv L b = Inr t \<and> labels t = seven_columns \<and> nrows t = nrows raw
     \<and> (\<forall>c \<in> set six_columns. c \<noteq> Valor \<and> c \<notin> set (reconciled_labels L raw)
            \<longrightarrow> getcols t c = [replicate (nrows raw) (S [])])
     \<and> (Valor \<notin> set (reconciled_labels L raw)
            \<longrightarrow> getcols t Valor_raw = [replicate (nrows raw) (S [])]
              \<and> getcols t Valor = [replicate (nrows raw) (F NaN)])"
proof -
  have "read_bs2_csv L b = reconcile L raw"
    using assms(1,2) by (simp add: read_bs2_csv_def decoded_lines_def Let_def)
  then show ?thesis
    using reconcile_columns[OF assms(3)] by simp
qed


theorem read_bs2_csv_columns_witness:
  "\<exists>t. read_bs2_csv ascii_lib no_valor_file = Inr t \<and> labels t = seven_columns \<and> nrows t = 1
     \<and> getcols t Detalhe = [[S []]] \<and> getcols t Valor_raw = [[S []]] \<and> getcols t Valor = [[F NaN]]"
proof -
  have h: "find_header ascii_lib 0 (decoded_lines ascii_lib no_valor_file) = Some 0"
    unfolding no_valor_lines by (rule no_valor_header)
  have c: "lib_read_csv ascii_lib (join_lines (drop 0 (decoded_lines ascii_lib no_valor_file))) = Inr no_valor_raw"
    unfolding no_valor_lines by (rule no_valor_csv)
  have o: "\<forall>c \<in> set seven_columns. count_list (reconciled_labels ascii_lib no_valor_raw) c \<le> 1"
    unfolding no_valor_labels by (simp add: seven_columns_def names_ne)
  have d: "Detalhe \<in> set six_columns" "Detalhe \<notin> set (reconciled_labels ascii_lib no_valor_raw)"
    "Valor \<notin> set (reconciled_labels ascii_lib no_valor_raw)" "nrows no_valor_raw = 1"
    unfolding no_valor_labels using names_ne by (auto simp: six_columns_def no_valor_raw_def)
  from read_bs2_csv_columns[OF h c o] obtain t where t:
    "read_bs2_csv ascii_lib no_valor_file = Inr t" "labels t = seven_columns" "nrows t = nrows no_valor_raw"
    "\<forall>c \<in> set six_columns. c \<noteq> Valor \<and> c \<notin> set (reconciled_labels ascii_lib no_valor_raw)
        \<longrightarrow> getcols t c = [replicate (nrows no_valor_raw) (S [])]"
    "Valor \<notin> set (reconciled_labels ascii_lib no_valor_raw)
        \<longrightarrow> getcols t Valor_raw = [replicate (nrows no_valor_raw) (S [])]
          \<and> getcols t Valor = [replicate (nrows no_valor_raw) (F NaN)]"
    by blast
  from t(4) d seven_distinct_names(13) have "getcols t Detalhe = [replicate (nrows no_valor_raw) (S [])]"
    by blast
  with t d show ?thesis by (intro exI[of _ t]) simp
qed

text \<open>
  C6 as stated fails: with the source columns Data and Data ref, both reconciled to Data,
  the table returned has eight columns.
\<close>

theorem read_bs2_csv_eight_columns:
  "map_sum id labels (read_bs2_csv ascii_lib dup_data_file)
   = Inr [Data, Data, Tipo, Detalhe, Identificador, Valor, Observacao, Valor_raw]"
proof -
  have "count_list (reconciled_labels ascii_lib dup_data_raw) Valor \<le> 1"
    unfolding dup_data_labels by (simp add: names_ne)
  from reconcile_labels[OF this] show ?thesis
    unfolding dup_data_reconcile dup_data_labels
    by (simp add: seven_columns_def names_ne)
qed

section \<open>Properties of the consolidator\<close>














section \<open>Properties of the classifier\<close>

lemma getcols_select_rows:
  "getcols (select_rows df m) l = map (\<lambda>c. map fst (filter snd (zip c m))) (getcols df l)"
proof -
  have "map snd (filter (\<lambda>p. fst p = l) (map (\<lambda>p. (fst p, g (snd p))) ps))
        = map g (map snd (filter (\<lambda>p. fst p = l) ps))" for ps :: "(ustr \<times> 'a list) list" and g
    by (induction ps) auto
  then show ?thesis by (simp add: getcols_def select_rows_def)
qed

lemma zip_mask_select:
  "length ts = length vs \<Longrightarrow>
   map fst (filter snd (zip vs (map P ts))) = map snd (filter (\<lambda>r. P (fst r)) (zip ts vs))"
  by (induction ts vs rule: list_induct2) auto

lemma length_mask_select:
  "length vs = length m \<Longrightarrow> length (filter snd (zip vs m)) = length (filter id m)"
  by (induction vs m rule: list_induct2) auto

lemma list_all_select: "list_all Q vs \<Longrightarrow> list_all Q (map fst (filter snd (zip vs m)))"
  by (induction vs arbitrary: m) (auto simp: zip_Cons1 split: list.splits)

lemma total_of_select_rows:
  assumes "getcols df Valor = [valor]" "list_all is_float valor" "length valor = length m"
  shows "total_of (select_rows df m) = Inr (nansum (map float_of (map fst (filter snd (zip valor m)))))"
proof (cases "filter id m = []")
  case True
  then have "empty_frame (select_rows df m)" by (simp add: empty_frame_def select_rows_def)
  moreover have "filter snd (zip valor m) = []"
    using length_mask_select[OF assms(3)] True by simp
  ultimately show ?thesis by (simp add: total_of_def nansum_def)
next
  case False
  have "columns df \<noteq> []" using assms(1) by (auto simp: getcols_def)
  with False have ne: "\<not> empty_frame (select_rows df m)"
    by (simp add: empty_frame_def select_rows_def)
  show ?thesis
    using ne assms(1) list_all_select[OF assms(2), of m]
    by (simp add: total_of_def getcols_select_rows col_sum_def)
qed

lemma filter_and_totals_wf:
  "(empty_frame df \<longrightarrow> filter_and_totals L df = Inr (df, df, Fin 0, Fin 0))
   \<and> (getcols df Tipo = [tipo] \<and> getcols df Valor = [valor] \<and> length tipo = nrows df
        \<and> length valor = nrows df \<and> list_all is_float valor \<longrightarrow>
       (\<exists>tarifa devol.
          filter_and_totals L df
            = Inr (tarifa, devol, spec_total L fee_key tipo valor, spec_total L refund_key tipo valor)
          \<and> getcols tarifa Valor = [map F (matching_values L fee_key tipo valor)]
          \<and> getcols devol Valor = [map F (matching_values L refund_key tipo valor)]))"
proof (intro conjI impI)
  show "filter_and_totals L df = Inr (df, df, Fin 0, Fin 0)" if "empty_frame df"
    using that by (simp add: filter_and_totals_def)
next
  assume a: "getcols df Tipo = [tipo] \<and> getcols df Valor = [valor] \<and> length tipo = nrows df
        \<and> length valor = nrows df \<and> list_all is_float valor"
  then have tipo: "getcols df Tipo = [tipo]" and valor: "getcols df Valor = [valor]"
    and len: "length tipo = length valor" "length tipo = nrows df" and fl: "list_all is_float valor"
    by auto
  have FF: "map F (map float_of vs) = vs" if "list_all is_float vs" for vs
    using that by (induction vs) (auto simp: is_float_def float_of_def split: cell.splits)
  have mv: "map float_of (map fst (filter snd (zip valor (map (\<lambda>t. contains (normalize_text L t) key) tipo))))
            = matching_values L key tipo valor" for key
    using zip_mask_select[OF len(1), of "\<lambda>t. contains (normalize_text L t) key"]
    by (simp add: matching_values_def comp_def)
  have sel: "map fst (filter snd (zip valor (map (\<lambda>t. contains (normalize_text L t) key) tipo)))
            = map F (matching_values L key tipo valor)" for key
    using FF[OF list_all_select[OF fl]] mv[of key] by metis
  show "\<exists>tarifa devol.
          filter_and_totals L df
            = Inr (tarifa, devol, spec_total L fee_key tipo valor, spec_total L refund_key tipo valor)
          \<and> getcols tarifa Valor = [map F (matching_values L fee_key tipo valor)]
          \<and> getcols devol Valor = [map F (matching_values L refund_key tipo valor)]"
  proof (cases "empty_frame df")
    case True
    have "columns df \<noteq> []" using tipo by (auto simp: getcols_def)
    with True have "nrows df = 0" by (simp add: empty_frame_def)
    with len have e: "tipo = []" "valor = []" by auto
    have "filter_and_totals L df = Inr (df, df, Fin 0, Fin 0)"
      using True by (simp add: filter_and_totals_def)
    then show ?thesis
      using e valor by (simp add: spec_total_def matching_values_def nansum_def)
  next
    case False
    let ?tm = "map (\<lambda>s. contains s fee_key) (map (normalize_text L) tipo)"
    let ?dm = "map (\<lambda>s. contains s refund_key) (map (normalize_text L) tipo)"
    have t1: "total_of (select_rows df ?tm) = Inr (spec_total L fee_key tipo valor)"
      using total_of_select_rows[OF valor fl, of ?tm] len mv[of fee_key]
      by (simp add: spec_total_def comp_def)
    have t2: "total_of (select_rows df ?dm) = Inr (spec_total L refund_key tipo valor)"
      using total_of_select_rows[OF valor fl, of ?dm] len mv[of refund_key]
      by (simp add: spec_total_def comp_def)
    have "filter_and_totals L df
          = Inr (select_rows df ?tm, select_rows df ?dm, spec_total L fee_key tipo valor,
                 spec_total L refund_key tipo valor)"
      using False tipo t1 t2 by (simp add: filter_and_totals_def Let_def)
    moreover have "getcols (select_rows df ?tm) Valor = [map F (matching_values L fee_key tipo valor)]"
      using sel[of fee_key] by (simp add: getcols_select_rows valor comp_def)
    moreover have "getcols (select_rows df ?dm) Valor = [map F (matching_values L refund_key tipo valor)]"
      using sel[of refund_key] by (simp add: getcols_select_rows valor comp_def)
    ultimately show ?thesis by blast
  qed
qed





lemma table_of_cols:
  "getcols (table_of rs) Tipo = [map (\<lambda>r. S (fst (snd r))) rs]"
  "getcols (table_of rs) Valor = [map (\<lambda>r. F (fst (snd (snd r)))) rs]"
  "getcols (table_of rs) Arquivo = [map (\<lambda>r. S (snd (snd (snd r)))) rs]"
  "getcols (table_of rs) Data = [map (\<lambda>r. S (fst r)) rs]"
  "nrows (table_of rs) = length rs"
  by (simp_all add: table_of_def getcols_def Data_def Tipo_def Detalhe_def Identificador_def Valor_def
      Observacao_def Valor_raw_def Arquivo_def cp_def)

lemma table_of_totals:
  "\<exists>tarifa devol.
     filter_and_totals L (table_of rs)
     = Inr (tarifa, devol,
            spec_total L fee_key (map (\<lambda>r. S (fst (snd r))) rs) (map (\<lambda>r. F (fst (snd (snd r)))) rs),
            spec_total L refund_key (map (\<lambda>r. S (fst (snd r))) rs) (map (\<lambda>r. F (fst (snd (snd r)))) rs))"
proof -
  have "list_all is_float (map (\<lambda>r. F (fst (snd (snd r)))) rs)"
    by (induction rs) (auto simp: is_float_def)
  with filter_and_totals_wf[of "table_of rs" L "map (\<lambda>r. S (fst (snd r))) rs" "map (\<lambda>r. F (fst (snd (snd r)))) rs"]
  show ?thesis by (simp add: table_of_cols) blast
qed

lemmas normalize_eval =
  normalize_text_def cell_str_def ascii_lib_def py_strip_def is_space_def ascii_lower_def

lemmas total_eval =
  spec_total_def matching_values_def nansum_def float_of_def fee_key_def refund_key_def cp_def







lemma longer_type_totals:
  "spec_total ascii_lib fee_key (map (\<lambda>r. S (fst (snd r))) longer_type_row) (map (\<lambda>r. F (fst (snd (snd r)))) longer_type_row) = Fin 10"
  "spec_total ascii_lib refund_key (map (\<lambda>r. S (fst (snd r))) longer_type_row) (map (\<lambda>r. F (fst (snd (snd r)))) longer_type_row) = Fin 0"
  by (simp_all add: longer_type_row_def total_eval normalize_eval)

lemma longer_type_group:
  "group_total ascii_lib (table_of longer_type_row) [S (cp ''a.csv'')] [S (cp ''Tarifa Operacoes Pix - lote'')]
     (cp ''a.csv'') key
   = Inr (if cp ''tarifa operacoes pix - lote'' = key then Fin 10 else Fin 0)"
  by (simp add: group_total_def Let_def getcols_select_rows table_of_cols longer_type_row_def
      col_sum_def is_float_def nansum_def float_of_def normalize_eval cp_def)

text \<open>
  C1. The summary per file selects the rows whose normalized Tipo equals the category
  text, the global classifier those whose normalized Tipo contains it. On one row of
  type \<open>Tarifa Operacoes Pix - lote\<close> with Value 10 the global fee total is 10 and the fee
  total of the only file is 0.
\<close>

theorem per_file_totals_differ:
  "map_sum id (\<lambda>r. snd (snd r)) (filter_and_totals ascii_lib (table_of longer_type_row)) = Inr (Fin 10, Fin 0)
   \<and> resumo_arquivo ascii_lib (table_of longer_type_row) = Inr [(cp ''a.csv'', 1, Fin 0, Fin 0)]"
proof
  show "map_sum id (\<lambda>r. snd (snd r)) (filter_and_totals ascii_lib (table_of longer_type_row)) = Inr (Fin 10, Fin 0)"
    using table_of_totals[of ascii_lib longer_type_row] by (auto simp: longer_type_totals)
  have k: "group_keys [S (cp ''a.csv'')] = [cp ''a.csv'']"
    by (simp add: group_keys_def)
  have g: "group_total ascii_lib (table_of longer_type_row) [S (cp ''a.csv'')] [S (cp ''Tarifa Operacoes Pix - lote'')]
     (cp ''a.csv'') fee_key = Inr (Fin 0)"
     "group_total ascii_lib (table_of longer_type_row) [S (cp ''a.csv'')] [S (cp ''Tarifa Operacoes Pix - lote'')]
     (cp ''a.csv'') refund_key = Inr (Fin 0)"
    unfolding longer_type_group by (simp_all add: fee_key_def refund_key_def cp_def)
  have c: "getcols (table_of longer_type_row) Tipo = [[S (cp ''Tarifa Operacoes Pix - lote'')]]"
    "getcols (table_of longer_type_row) Arquivo = [[S (cp ''a.csv'')]]"
    by (simp_all add: table_of_cols longer_type_row_def)
  show "resumo_arquivo ascii_lib (table_of longer_type_row) = Inr [(cp ''a.csv'', 1, Fin 0, Fin 0)]"
    unfolding resumo_arquivo_def c by (simp add: k g)
qed

section \<open>Properties of the detail sheets\<close>












section \<open>Properties of the tables as objects\<close>

lemma to_excel_h_frame:
  assumes "to_excel_h h devol tarifa = (h2, res)" "a \<noteq> devol" "a \<noteq> tarifa"
  shows "h2 ! a = h ! a" "length h2 = length h"
  using assms
  by (auto simp: to_excel_h_def Let_def split: sum.splits prod.splits)

text \<open>
  C9. Classification and the writing of the workbook leave the base table as it was:
  \<open>filter_and_totals\<close> puts the two subsets at new addresses and changes no table, and
  \<open>to_excel_bytes\<close> sorts only the tables at those two addresses, so every table that
  existed before, the consolidated one among them, is unchanged and keeps all its rows.
\<close>

theorem classification_keeps_base_table:
  assumes "df < length h"
    and "filter_and_totals_h L h df = Inr (h1, tarifa, devol, total_tarifa, total_devol)"
    and "to_excel_h h1 devol tarifa = (h2, res)"
  shows "h1 ! df = h ! df \<and> h2 ! df = h ! df \<and> tarifa \<noteq> df \<and> devol \<noteq> df \<and> tarifa \<noteq> devol
         \<and> length h \<le> tarifa \<and> length h \<le> devol
         \<and> (\<forall>a < length h. h2 ! a = h ! a) \<and> nrows (h2 ! df) = nrows (h ! df)"
proof -
  from assms(2) obtain ta de where
    h1: "h1 = h @ [ta, de]" and ad: "tarifa = length h" "devol = Suc (length h)"
    by (auto simp: filter_and_totals_h_def split: sum.splits prod.splits)
  have old: "h2 ! a = h ! a" if "a < length h" for a
  proof -
    from that ad have "a \<noteq> devol" "a \<noteq> tarifa" by auto
    from to_excel_h_frame(1)[OF assms(3) this] have "h2 ! a = h1 ! a" .
    with that show ?thesis by (simp add: h1 nth_append)
  qed
  have "h1 ! df = h ! df" using assms(1) by (simp add: h1 nth_append)
  with old[OF assms(1)] old assms(1) ad show ?thesis by auto
qed


theorem classification_keeps_base_table_witness:
  "case filter_and_totals_h ascii_lib [table_of three_rows] 0 of
     Inl e \<Rightarrow> False
   | Inr (h1, tarifa, devol, total_tarifa, total_devol) \<Rightarrow>
       fst (to_excel_h h1 devol tarifa) ! 0 = table_of three_rows \<and> tarifa \<noteq> 0 \<and> devol \<noteq> 0"
proof -
  from table_of_totals[of ascii_lib three_rows] obtain ta de tt td where
    r: "filter_and_totals ascii_lib (table_of three_rows) = Inr (ta, de, tt, td)"
    by blast
  let ?h = "[table_of three_rows]"
  have f: "filter_and_totals_h ascii_lib ?h 0 = Inr (?h @ [ta, de], 1, 2, tt, td)"
    by (simp add: filter_and_totals_h_def r)
  have "to_excel_h (?h @ [ta, de]) 2 1
        = (fst (to_excel_h (?h @ [ta, de]) 2 1), snd (to_excel_h (?h @ [ta, de]) 2 1))"
    by simp
  from classification_keeps_base_table[OF _ f this]
  have "fst (to_excel_h (?h @ [ta, de]) 2 1) ! 0 = table_of three_rows"
    by simp
  then show ?thesis by (simp add: f)
qed

section \<open>Properties of the session collection\<close>



end
